theory Spec2Isabelle
  imports Main
begin

section \<open>Python values and strings\<close>

text \<open>
  The program is \<^verbatim>\<open>Lab2/Lab2.py\<close>: an image inventory built on Pillow. A Python
  \<^verbatim>\<open>str\<close> is modelled as a \<open>string\<close> holding its UTF-8 bytes; the program only
  concatenates, compares and changes the case of strings, it never counts characters.
  The multiplication sign U+00D7 that the program prints between two numbers is the
  two bytes \<open>0xC3 0x97\<close>.
\<close>

definition times_sign :: string where
  "times_sign = [CHR 0xC3, CHR 0x97]"

text \<open>\<^verbatim>\<open>str(n)\<close> for a Python \<^verbatim>\<open>int\<close>: decimal digits, a leading minus sign below zero.\<close>

definition digit_char :: "int \<Rightarrow> char" where
  "digit_char d =
     (if d = 0 then CHR ''0'' else if d = 1 then CHR ''1'' else if d = 2 then CHR ''2''
      else if d = 3 then CHR ''3'' else if d = 4 then CHR ''4'' else if d = 5 then CHR ''5''
      else if d = 6 then CHR ''6'' else if d = 7 then CHR ''7'' else if d = 8 then CHR ''8''
      else CHR ''9'')"

function digits_str :: "int \<Rightarrow> string" where
  "digits_str n = (if n < 10 then [digit_char n] else digits_str (n div 10) @ [digit_char (n mod 10)])"
  by pat_completeness auto
termination
  by (relation "measure nat") auto

declare digits_str.simps [simp del]

definition int_str :: "int \<Rightarrow> string" where
  "int_str i = (if i < 0 then CHR ''-'' # digits_str (- i) else digits_str i)"

text \<open>
  \<^verbatim>\<open>str.lower()\<close> and \<^verbatim>\<open>str.capitalize()\<close>. The letters \<open>A\<close> to \<open>Z\<close> are mapped; every other
  byte is kept. Python also maps letters beyond ASCII, but no such letter is lowered to
  one of the ASCII letters that the program's tables contain except the Kelvin sign
  (to \<open>k\<close>), and \<open>k\<close> occurs only in the TIFF tag \<open>packbits\<close>.
\<close>

definition lower_char :: "char \<Rightarrow> char" where
  "lower_char c =
     (case map_of (zip ''ABCDEFGHIJKLMNOPQRSTUVWXYZ'' ''abcdefghijklmnopqrstuvwxyz'') c of
        Some l \<Rightarrow> l
      | None \<Rightarrow> c)"

definition upper_char :: "char \<Rightarrow> char" where
  "upper_char c =
     (case map_of (zip ''abcdefghijklmnopqrstuvwxyz'' ''ABCDEFGHIJKLMNOPQRSTUVWXYZ'') c of
        Some u \<Rightarrow> u
      | None \<Rightarrow> c)"

definition lower :: "string \<Rightarrow> string" where
  "lower s = map lower_char s"

definition capitalize :: "string \<Rightarrow> string" where
  "capitalize s = (case s of [] \<Rightarrow> [] | c # cs \<Rightarrow> upper_char c # map lower_char cs)"

text \<open>
  The values the decoder stores in an image's \<^verbatim>\<open>info\<close> dictionary and the values of the
  record that the program builds. \<open>PyOther t\<close> is an object of any type that is not
  modelled structurally (a \<^verbatim>\<open>float\<close>, Pillow's \<^verbatim>\<open>IFDRational\<close>, \<^verbatim>\<open>bytes\<close>, ...); the program
  only ever turns such an object into text, and \<open>t\<close> is the text that \<^verbatim>\<open>str\<close> and
  \<^verbatim>\<open>repr\<close> give for it (\<open>72.0\<close> for the float 72.0).
\<close>

datatype pyval =
    PyNone
  | PyInt int
  | PyStr string
  | PyTuple "pyval list"
  | PyOther string

text \<open>
  \<^verbatim>\<open>repr\<close> of a \<^verbatim>\<open>str\<close>: single quotes, unless the text holds a single quote and no double
  quote; the quote and the backslash are escaped, as are the control characters.
\<close>

definition hex_char :: "nat \<Rightarrow> char" where
  "hex_char d = ''0123456789abcdef'' ! d"

definition repr_char :: "char \<Rightarrow> char \<Rightarrow> string" where
  "repr_char q c =
     (let n = (of_char c :: nat) in
      if c = q \<or> c = CHR 0x5C then [CHR 0x5C, c]
      else if n = 9 then [CHR 0x5C, CHR ''t'']
      else if n = 10 then [CHR 0x5C, CHR ''n'']
      else if n = 13 then [CHR 0x5C, CHR ''r'']
      else if n < 32 \<or> n = 127 then [CHR 0x5C, CHR ''x'', hex_char (n div 16), hex_char (n mod 16)]
      else [c])"

definition repr_str :: "string \<Rightarrow> string" where
  "repr_str s =
     (let q = (if CHR 0x27 \<in> set s \<and> CHR 0x22 \<notin> set s then CHR 0x22 else CHR 0x27)
      in q # concat (map (repr_char q) s) @ [q])"

fun join_comma :: "string list \<Rightarrow> string" where
  "join_comma [] = []"
| "join_comma [s] = s"
| "join_comma (s # t # ts) = s @ '', '' @ join_comma (t # ts)"

fun py_repr :: "pyval \<Rightarrow> string" where
  "py_repr PyNone = ''None''"
| "py_repr (PyInt i) = int_str i"
| "py_repr (PyStr s) = repr_str s"
| "py_repr (PyOther t) = t"
| "py_repr (PyTuple vs) =
     (case vs of
        [v] \<Rightarrow> ''('' @ py_repr v @ '',)''
      | _ \<Rightarrow> ''('' @ join_comma (map py_repr vs) @ '')'')"

text \<open>\<^verbatim>\<open>str(v)\<close>, which is also what an f-string field without a format gives.\<close>

definition py_str :: "pyval \<Rightarrow> string" where
  "py_str v = (case v of PyStr s \<Rightarrow> s | _ \<Rightarrow> py_repr v)"

section \<open>The decoder's image object\<close>

text \<open>
  What \<^verbatim>\<open>Image.open\<close> returns, as far as the program reads it: \<^verbatim>\<open>img.format\<close>
  (which may be \<^verbatim>\<open>None\<close>), \<^verbatim>\<open>img.size\<close>, \<^verbatim>\<open>img.mode\<close> and the dictionary \<^verbatim>\<open>img.info\<close>.
\<close>

record image =
  img_format :: "string option"
  img_size :: "nat \<times> nat"
  img_mode :: string
  img_info :: "string \<rightharpoonup> pyval"

text \<open>\<^verbatim>\<open>d.get(k, default)\<close>\<close>

definition dict_get :: "('k \<rightharpoonup> 'v) \<Rightarrow> 'k \<Rightarrow> 'v \<Rightarrow> 'v" where
  "dict_get d k dflt = (case d k of None \<Rightarrow> dflt | Some v \<Rightarrow> v)"

subsection \<open>\<^verbatim>\<open>get_color_depth\<close>\<close>

definition mode_bits :: "string \<rightharpoonup> int" where
  "mode_bits =
     [''1'' \<mapsto> 1, ''L'' \<mapsto> 8, ''P'' \<mapsto> 8, ''RGB'' \<mapsto> 24, ''RGBA'' \<mapsto> 32,
      ''CMYK'' \<mapsto> 32, ''YCbCr'' \<mapsto> 24, ''LAB'' \<mapsto> 24, ''HSV'' \<mapsto> 24, ''I'' \<mapsto> 32, ''F'' \<mapsto> 32]"

definition get_color_depth :: "image \<Rightarrow> pyval" where
  "get_color_depth img =
     (case mode_bits (img_mode img) of
        Some b \<Rightarrow> PyInt b
      | None \<Rightarrow> PyStr (''Unknown ('' @ img_mode img @ '')''))"

subsection \<open>\<^verbatim>\<open>get_dpi\<close>\<close>

definition get_dpi :: "image \<Rightarrow> string" where
  "get_dpi img =
     (let dpi = dict_get (img_info img) ''dpi'' (PyTuple [PyInt 72, PyInt 72]) in
      case dpi of
        PyTuple [x, y] \<Rightarrow> py_str x @ '' '' @ times_sign @ '' '' @ py_str y
      | _ \<Rightarrow> ''72 '' @ times_sign @ '' 72'')"

section \<open>Python floats\<close>

text \<open>
  A Python \<^verbatim>\<open>float\<close> is an IEEE 754 binary64 number. \<open>F64 m e\<close> stands for the number
  \<open>m * 2 ^ e\<close>; every operation below rounds its exact result to 53 significant bits,
  to the nearest such number and to the even one on a tie, as the hardware does. The
  exponent range of binary64 (overflow to infinity, subnormal numbers) is not part of
  the model: the program divides byte counts, which lie far inside that range.
\<close>

datatype float64 = F64 int int

datatype error =
    UnidentifiedImageError string
  | OSError string
  | ValueError string
  | ZeroDivisionError

text \<open>\<^verbatim>\<open>str(e)\<close> for a caught exception.\<close>

fun error_str :: "error \<Rightarrow> string" where
  "error_str (UnidentifiedImageError msg) = msg"
| "error_str (OSError msg) = msg"
| "error_str (ValueError msg) = msg"
| "error_str ZeroDivisionError = ''division by zero''"

text \<open>The integer nearest to \<open>p / q\<close> for \<open>q > 0\<close>, the even one of two equally near.\<close>

definition rne :: "int \<Rightarrow> int \<Rightarrow> int" where
  "rne p q =
     (let f = p div q; r = p mod q in
      if 2 * r < q then f
      else if q < 2 * r then f + 1
      else if even f then f else f + 1)"

text \<open>The number of binary digits of \<open>n\<close> (\<^verbatim>\<open>int.bit_length\<close>), for \<open>n\<close> not below zero.\<close>

function bitlen :: "int \<Rightarrow> int" where
  "bitlen n = (if n \<le> 0 then 0 else 1 + bitlen (n div 2))"
  by pat_completeness auto
termination
  by (relation "measure nat") auto

declare bitlen.simps [simp del]

text \<open>
  The binary64 number nearest to \<open>p / q\<close> for \<open>q > 0\<close>. With \<open>k\<close> the difference of the
  bit lengths, \<open>|p / q|\<close> lies strictly between \<open>2 ^ (k - 1)\<close> and \<open>2 ^ (k + 1)\<close>; the
  exponent \<open>e\<close> is chosen so that \<open>|p / q| / 2 ^ e\<close> lies in \<open>[2 ^ 52, 2 ^ 53)\<close>, and the
  quotient is rounded to an integer there.
\<close>

definition round_to_double :: "int \<Rightarrow> int \<Rightarrow> float64" where
  "round_to_double p q =
     (if p = 0 then F64 0 0
      else
        let k = bitlen \<bar>p\<bar> - bitlen q;
            e0 = k - 53;
            e = (if 2 ^ 53 * (q * 2 ^ nat e0) \<le> \<bar>p\<bar> * 2 ^ nat (- e0) then e0 + 1 else e0)
        in F64 (rne (p * 2 ^ nat (- e)) (q * 2 ^ nat e)) e)"

text \<open>\<^verbatim>\<open>a / b\<close> for two \<^verbatim>\<open>int\<close>s: the correctly rounded quotient, or \<^verbatim>\<open>ZeroDivisionError\<close>.\<close>

definition py_truediv :: "int \<Rightarrow> int \<Rightarrow> error + float64" where
  "py_truediv a b =
     (if b = 0 then Inl ZeroDivisionError else Inr (round_to_double (a * sgn b) \<bar>b\<bar>))"

text \<open>
  \<^verbatim>\<open>x / n\<close> and \<^verbatim>\<open>x * n\<close> for a \<^verbatim>\<open>float\<close> and an \<^verbatim>\<open>int\<close>. Python converts \<open>n\<close> to a float
  first, which is exact below \<open>2 ^ 53\<close>; the program uses \<open>1024\<close> and \<open>100\<close>.
\<close>

fun float_div_int :: "float64 \<Rightarrow> int \<Rightarrow> error + float64" where
  "float_div_int (F64 m e) n =
     (if n = 0 then Inl ZeroDivisionError
      else Inr (round_to_double (m * 2 ^ nat e * sgn n) (\<bar>n\<bar> * 2 ^ nat (- e))))"

fun float_mul_int :: "float64 \<Rightarrow> int \<Rightarrow> float64" where
  "float_mul_int (F64 m e) n = round_to_double (m * n * 2 ^ nat e) (2 ^ nat (- e))"

text \<open>
  \<^verbatim>\<open>f"{x:.<prec>f}"\<close>: the exact value of \<open>x\<close> rounded to \<open>prec\<close> decimals, to the even
  digit on a tie, printed with at least one digit before the point.
\<close>

fun format_f :: "nat \<Rightarrow> float64 \<Rightarrow> string" where
  "format_f prec (F64 m e) =
     (let t = rne (\<bar>m\<bar> * 10 ^ prec * 2 ^ nat e) (2 ^ nat (- e));
          ds = digits_str t;
          padded = replicate (Suc prec - length ds) CHR ''0'' @ ds;
          ip = take (length padded - prec) padded;
          fp = drop (length padded - prec) padded
      in (if m < 0 then ''-'' else []) @ ip @ (if prec = 0 then [] else CHR ''.'' # fp))"

section \<open>The collaborators\<close>

text \<open>
  The decoder (Pillow) and the file system are outside the program; a \<open>world\<close> says what
  they answer. Every call may raise.
  \<^item> \<open>image_open\<close>: \<^verbatim>\<open>Image.open(path)\<close>;
  \<^item> \<open>os_stat\<close>: \<^verbatim>\<open>os.stat(path).st_size\<close>;
  \<^item> \<open>convert\<close>: \<^verbatim>\<open>img.convert(mode)\<close>;
  \<^item> \<open>save_bmp\<close>: \<^verbatim>\<open>img.save(buffer, format='BMP')\<close> into an empty \<^verbatim>\<open>BytesIO\<close>, followed by
    \<^verbatim>\<open>buffer.tell()\<close>: the number of bytes written;
  \<^item> \<open>os_walk\<close>: the triples \<^verbatim>\<open>(root, dirs, files)\<close> that \<^verbatim>\<open>os.walk(path)\<close> yields, in order.
\<close>

record world =
  image_open :: "string \<Rightarrow> error + image"
  os_stat :: "string \<Rightarrow> error + nat"
  convert :: "image \<Rightarrow> string \<Rightarrow> error + image"
  save_bmp :: "image \<Rightarrow> error + nat"
  os_walk :: "string \<Rightarrow> (string \<times> string list \<times> string list) list"

section \<open>\<^verbatim>\<open>ImageInfoExtractor\<close>\<close>

subsection \<open>\<^verbatim>\<open>calculate_jpeg_compression_ratio\<close>\<close>

text \<open>The local variable \<^verbatim>\<open>rgb_img\<close>: the image that is written to the buffer.\<close>

definition rgb_img :: "world \<Rightarrow> image \<Rightarrow> error + image" where
  "rgb_img w img =
     (if img_mode img \<in> {''RGBA'', ''LA'', ''P''} then convert w img ''RGB'' else Inr img)"

text \<open>The body of the \<^verbatim>\<open>try\<close> block; \<open>Inl\<close> is an exception that leaves it.\<close>

definition jpeg_ratio_body :: "world \<Rightarrow> image \<Rightarrow> nat \<Rightarrow> error + string" where
  "jpeg_ratio_body w img actual_file_size =
     (case rgb_img w img of
        Inl ex \<Rightarrow> Inl ex
      | Inr rgb \<Rightarrow>
          (case save_bmp w rgb of
             Inl ex \<Rightarrow> Inl ex
           | Inr uncompressed_size \<Rightarrow>
               if uncompressed_size > 0 then
                 (case py_truediv (int uncompressed_size - int actual_file_size)
                         (int uncompressed_size) of
                    Inl ex \<Rightarrow> Inl ex
                  | Inr ratio \<Rightarrow> Inr (format_f 1 (float_mul_int ratio 100) @ ''%''))
               else Inr ''N/A''))"

definition calculate_jpeg_compression_ratio :: "world \<Rightarrow> image \<Rightarrow> nat \<Rightarrow> string" where
  "calculate_jpeg_compression_ratio w img actual_file_size =
     (case jpeg_ratio_body w img actual_file_size of
        Inr s \<Rightarrow> s
      | Inl ex \<Rightarrow> ''Error: '' @ error_str ex)"

subsection \<open>\<^verbatim>\<open>get_compression\<close>\<close>

definition compression_map :: "string \<rightharpoonup> string" where
  "compression_map =
     [''jpeg'' \<mapsto> ''JPEG'', ''deflate'' \<mapsto> ''DEFLATE'', ''packbits'' \<mapsto> ''PackBits'',
      ''lzw'' \<mapsto> ''LZW'', ''none'' \<mapsto> ''None'', ''raw'' \<mapsto> ''RAW'', ''tiff_lzw'' \<mapsto> ''TIFF LZW'']"

definition get_compression :: "world \<Rightarrow> image \<Rightarrow> string \<Rightarrow> nat \<Rightarrow> string" where
  "get_compression w img file_path actual_file_size =
     (if img_format img = Some ''JPEG'' then
        calculate_jpeg_compression_ratio w img actual_file_size
      else if img_format img = Some ''PNG'' then ''0%''
      else if img_format img = Some ''BMP'' then ''0%''
      else if img_format img = Some ''TIFF'' then
        (let compression = dict_get (img_info img) ''compression'' (PyStr ''None'') in
         dict_get compression_map (lower (py_str compression)) (capitalize (py_str compression)))
      else if img_format img = Some ''GIF'' then ''LZW''
      else
        (let compression = dict_get (img_info img) ''compression'' (PyStr ''None'') in
         if compression \<noteq> PyStr ''None'' then capitalize (py_str compression)
         else ''Unknown''))"

subsection \<open>Paths\<close>

text \<open>
  \<^verbatim>\<open>os.path.basename\<close>, \<^verbatim>\<open>os.path.splitext\<close> and \<^verbatim>\<open>os.path.join\<close> of the Python library, for
  POSIX paths (the separator is \<open>/\<close>). \<open>rfind c s\<close> is \<^verbatim>\<open>s.rfind(c)\<close>, with \<open>None\<close> for
  \<open>-1\<close>.
\<close>

fun rfind :: "char \<Rightarrow> string \<Rightarrow> nat option" where
  "rfind c [] = None"
| "rfind c (x # xs) =
     (case rfind c xs of
        Some i \<Rightarrow> Some (Suc i)
      | None \<Rightarrow> if x = c then Some 0 else None)"

definition basename :: "string \<Rightarrow> string" where
  "basename p = (case rfind CHR ''/'' p of None \<Rightarrow> p | Some i \<Rightarrow> drop (Suc i) p)"

text \<open>
  The second component of \<^verbatim>\<open>os.path.splitext(p)\<close>: the text from the last dot of the last
  path component on, unless only dots come before it in that component.
\<close>

definition splitext_ext :: "string \<Rightarrow> string" where
  "splitext_ext p =
     (case rfind CHR ''.'' p of
        None \<Rightarrow> []
      | Some dotIndex \<Rightarrow>
          (let filenameIndex = (case rfind CHR ''/'' p of None \<Rightarrow> 0 | Some sepIndex \<Rightarrow> Suc sepIndex) in
           if filenameIndex \<le> dotIndex
              \<and> list_ex (\<lambda>c. c \<noteq> CHR ''.'') (take (dotIndex - filenameIndex) (drop filenameIndex p))
           then drop dotIndex p
           else []))"

definition path_join :: "string \<Rightarrow> string \<Rightarrow> string" where
  "path_join a b =
     (if b \<noteq> [] \<and> hd b = CHR ''/'' then b
      else if a = [] \<or> last a = CHR ''/'' then a @ b
      else a @ ''/'' @ b)"

subsection \<open>\<^verbatim>\<open>get_image_info\<close>\<close>

text \<open>
  The record of one file is a Python dictionary. The body of the \<^verbatim>\<open>try\<close> block opens the
  file, then asks the file system for its size, then builds the dictionary; the
  \<^verbatim>\<open>except\<close> branch builds the dictionary of a failure from the exception.
  \<open>file_size_mb_str\<close> is the expression \<^verbatim>\<open>f"{actual_file_size / 1024 / 1024:.2f}"\<close>.
\<close>

type_synonym info = "string \<rightharpoonup> pyval"

definition file_size_mb_str :: "nat \<Rightarrow> error + string" where
  "file_size_mb_str actual_file_size =
     (case py_truediv (int actual_file_size) 1024 of
        Inl ex \<Rightarrow> Inl ex
      | Inr kb \<Rightarrow>
          (case float_div_int kb 1024 of
             Inl ex \<Rightarrow> Inl ex
           | Inr mb \<Rightarrow> Inr (format_f 2 mb)))"

definition get_image_info_body :: "world \<Rightarrow> string \<Rightarrow> error + info" where
  "get_image_info_body w file_path =
     (case image_open w file_path of
        Inl ex \<Rightarrow> Inl ex
      | Inr img \<Rightarrow>
          (case os_stat w file_path of
             Inl ex \<Rightarrow> Inl ex
           | Inr actual_file_size \<Rightarrow>
               (case file_size_mb_str actual_file_size of
                  Inl ex \<Rightarrow> Inl ex
                | Inr file_size_mb \<Rightarrow>
                    Inr [''filename'' \<mapsto> PyStr (basename file_path),
                         ''filepath'' \<mapsto> PyStr file_path,
                         ''format'' \<mapsto> PyStr (case img_format img of
                                              None \<Rightarrow> ''Unknown''
                                            | Some f \<Rightarrow> if f = [] then ''Unknown'' else f),
                         ''width'' \<mapsto> PyInt (int (fst (img_size img))),
                         ''height'' \<mapsto> PyInt (int (snd (img_size img))),
                         ''size_str'' \<mapsto> PyStr (int_str (int (fst (img_size img))) @ '' '' @ times_sign
                                                @ '' '' @ int_str (int (snd (img_size img)))),
                         ''mode'' \<mapsto> PyStr (img_mode img),
                         ''color_depth'' \<mapsto> get_color_depth img,
                         ''dpi'' \<mapsto> PyStr (get_dpi img),
                         ''compression'' \<mapsto> PyStr (get_compression w img file_path actual_file_size),
                         ''file_size_mb'' \<mapsto> PyStr file_size_mb,
                         ''error'' \<mapsto> PyNone])))"

definition get_image_info :: "world \<Rightarrow> string \<Rightarrow> info" where
  "get_image_info w file_path =
     (case get_image_info_body w file_path of
        Inr info \<Rightarrow> info
      | Inl ex \<Rightarrow>
          [''filename'' \<mapsto> PyStr (basename file_path),
           ''filepath'' \<mapsto> PyStr file_path,
           ''error'' \<mapsto> PyStr (error_str ex),
           ''format'' \<mapsto> PyStr ''Error'',
           ''size_str'' \<mapsto> PyStr ''Error'',
           ''dpi'' \<mapsto> PyStr ''Error'',
           ''color_depth'' \<mapsto> PyStr ''Error'',
           ''compression'' \<mapsto> PyStr ''Error'',
           ''file_size_mb'' \<mapsto> PyStr ''Error''])"

section \<open>\<^verbatim>\<open>scan_folder\<close>\<close>

definition image_extensions :: "string set" where
  "image_extensions = {''.jpg'', ''.jpeg'', ''.gif'', ''.tif'', ''.tiff'', ''.bmp'', ''.png'', ''.pcx''}"

text \<open>The inner loop over the files of one directory.\<close>

fun scan_files :: "string \<Rightarrow> string list \<Rightarrow> string list \<Rightarrow> string list" where
  "scan_files root [] image_files = image_files"
| "scan_files root (file # files) image_files =
     (if lower (splitext_ext file) \<in> image_extensions
      then scan_files root files (image_files @ [path_join root file])
      else scan_files root files image_files)"

text \<open>The outer loop over the directories, which stops once 100000 paths are collected.\<close>

fun scan_walk :: "(string \<times> string list \<times> string list) list \<Rightarrow> string list \<Rightarrow> string list" where
  "scan_walk [] image_files = image_files"
| "scan_walk ((root, dirs, files) # rest) image_files =
     (let image_files' = scan_files root files image_files in
      if length image_files' \<ge> 100000 then image_files' else scan_walk rest image_files')"

definition scan_folder :: "world \<Rightarrow> string \<Rightarrow> string list" where
  "scan_folder w folder_path = take 100000 (scan_walk (os_walk w folder_path) [])"

section \<open>\<^verbatim>\<open>scan_and_process_folder\<close>\<close>

text \<open>
  The loop that fills \<^verbatim>\<open>processed_data\<close>, one record for each path. The progress bar and
  the status line it updates belong to the user interface.
\<close>

fun process_files :: "world \<Rightarrow> string list \<Rightarrow> info list \<Rightarrow> info list" where
  "process_files w [] processed_data = processed_data"
| "process_files w (file_path # rest) processed_data =
     process_files w rest (processed_data @ [get_image_info w file_path])"

text \<open>
  The part of \<^verbatim>\<open>st.session_state\<close> that the function writes. When the scan finds no image
  the function reports that and returns; the state keeps the records it held.
\<close>

record session_state =
  folder_path :: string
  processed_files :: "info list"

definition scan_and_process_folder :: "world \<Rightarrow> session_state \<Rightarrow> string \<Rightarrow> session_state" where
  "scan_and_process_folder w st path =
     (let image_files = scan_folder w path in
      if image_files = [] then st
      else st\<lparr>processed_files := process_files w image_files []\<rparr>)"

section \<open>Properties of records and colour modes\<close>

text \<open>
  The two shapes of a record: a successful one has no error and holds every field; a
  failed one holds an error text and the word \<open>Error\<close> in each derived field.
\<close>

definition record_keys :: "string list" where
  "record_keys =
     [''filename'', ''filepath'', ''format'', ''width'', ''height'', ''size_str'', ''mode'',
      ''color_depth'', ''dpi'', ''compression'', ''file_size_mb'', ''error'']"

definition derived_keys :: "string list" where
  "derived_keys = [''format'', ''size_str'', ''dpi'', ''color_depth'', ''compression'', ''file_size_mb'']"

definition fully_successful :: "info \<Rightarrow> bool" where
  "fully_successful r = (r ''error'' = Some PyNone \<and> list_all (\<lambda>k. r k \<noteq> None) record_keys)"

definition fully_failed :: "info \<Rightarrow> bool" where
  "fully_failed r =
     ((case r ''error'' of Some (PyStr msg) \<Rightarrow> True | _ \<Rightarrow> False)
      \<and> list_all (\<lambda>k. r k = Some (PyStr ''Error'')) derived_keys)"



section \<open>A sample directory\<close>

text \<open>
  A small world for concrete runs. The directory \<open>pics\<close> holds a 100 by 50 RGB PNG, a one
  pixel JPEG of 631 bytes, a 37 by 4 JPEG of 565 bytes, a CMYK JPEG of 1200 bytes and a
  file \<open>bad.jpg\<close> of 2048 bytes that the decoder cannot identify. Writing an RGB image as BMP gives a header of
  54 bytes and rows padded to a multiple of four bytes; the decoder refuses to write
  other modes than the ones BMP knows.
\<close>

definition sample_image :: "string \<Rightarrow> string \<Rightarrow> nat \<times> nat \<Rightarrow> image" where
  "sample_image fmt mode sz = \<lparr>img_format = Some fmt, img_size = sz, img_mode = mode, img_info = Map.empty\<rparr>"

definition sample_files :: "(string \<times> image \<times> nat) list" where
  "sample_files =
     [(''pics/a.png'', sample_image ''PNG'' ''RGB'' (100, 50), 15432),
      (''pics/tiny.jpg'', sample_image ''JPEG'' ''RGB'' (1, 1), 631),
      (''pics/sub/strip.JPG'', sample_image ''JPEG'' ''RGB'' (37, 4), 565),
      (''pics/sub/print.jpg'', sample_image ''JPEG'' ''CMYK'' (8, 8), 1200)]"

definition sample_world :: world where
  "sample_world =
     \<lparr>image_open = (\<lambda>p. case map_of sample_files p of
                          Some (img, n) \<Rightarrow> Inr img
                        | None \<Rightarrow> Inl (UnidentifiedImageError (''cannot identify image file '' @ repr_str p))),
      os_stat = (\<lambda>p. case map_of sample_files p of
                       Some (img, n) \<Rightarrow> Inr n
                     | None \<Rightarrow> if p = ''pics/bad.jpg'' then Inr 2048
                               else Inl (OSError (''[Errno 2] No such file or directory: '' @ repr_str p))),
      convert = (\<lambda>img mode. Inr (img\<lparr>img_mode := mode\<rparr>)),
      save_bmp = (\<lambda>img. if img_mode img = ''RGB''
                         then Inr (54 + ((3 * fst (img_size img) + 3) div 4) * 4 * snd (img_size img))
                         else Inl (OSError (''cannot write mode '' @ img_mode img @ '' as BMP''))),
      os_walk = (\<lambda>p. if p = ''pics''
                      then [(''pics'', [''sub''], [''a.png'', ''bad.jpg'', ''notes.txt'', ''tiny.jpg'', ''.png'']),
                            (''pics/sub'', [], [''strip.JPG'', ''print.jpg''])]
                      else [])\<rparr>"

section \<open>Colour depth\<close>

text \<open>
  Claim C5. \<open>get_color_depth\<close> has no error path: it is a total function of the image. On
  each of the eleven modes of its table it returns the listed number of bits, and on any
  other mode it returns the label \<open>Unknown (mode)\<close>, which contains the mode as given.
\<close>

theorem get_color_depth_table:
  "(img_mode img = ''1'' \<longrightarrow> get_color_depth img = PyInt 1) \<and>
   (img_mode img = ''L'' \<longrightarrow> get_color_depth img = PyInt 8) \<and>
   (img_mode img = ''P'' \<longrightarrow> get_color_depth img = PyInt 8) \<and>
   (img_mode img = ''RGB'' \<longrightarrow> get_color_depth img = PyInt 24) \<and>
   (img_mode img = ''RGBA'' \<longrightarrow> get_color_depth img = PyInt 32) \<and>
   (img_mode img = ''CMYK'' \<longrightarrow> get_color_depth img = PyInt 32) \<and>
   (img_mode img = ''YCbCr'' \<longrightarrow> get_color_depth img = PyInt 24) \<and>
   (img_mode img = ''LAB'' \<longrightarrow> get_color_depth img = PyInt 24) \<and>
   (img_mode img = ''HSV'' \<longrightarrow> get_color_depth img = PyInt 24) \<and>
   (img_mode img = ''I'' \<longrightarrow> get_color_depth img = PyInt 32) \<and>
   (img_mode img = ''F'' \<longrightarrow> get_color_depth img = PyInt 32) \<and>
   (img_mode img \<notin> {''1'', ''L'', ''P'', ''RGB'', ''RGBA'', ''CMYK'', ''YCbCr'', ''LAB'', ''HSV'', ''I'', ''F''} \<longrightarrow>
      get_color_depth img = PyStr (''Unknown ('' @ img_mode img @ '')'')
      \<and> (\<exists>pre post. get_color_depth img = PyStr (pre @ img_mode img @ post)))"
proof -
  have fallback: "get_color_depth img = PyStr (''Unknown ('' @ img_mode img @ '')'')"
    if "img_mode img \<notin> {''1'', ''L'', ''P'', ''RGB'', ''RGBA'', ''CMYK'', ''YCbCr'', ''LAB'', ''HSV'', ''I'', ''F''}"
    using that by (simp add: get_color_depth_def mode_bits_def)
  have "\<exists>pre post. get_color_depth img = PyStr (pre @ img_mode img @ post)"
    if "get_color_depth img = PyStr (''Unknown ('' @ img_mode img @ '')'')"
    using that by blast
  with fallback show ?thesis
    by (simp add: get_color_depth_def mode_bits_def)
qed

theorem get_color_depth_table_witness:
  "get_color_depth (sample_image ''PNG'' ''1'' (100, 50)) = PyInt 1 \<and>
   get_color_depth (sample_image ''PNG'' ''L'' (100, 50)) = PyInt 8 \<and>
   get_color_depth (sample_image ''PNG'' ''P'' (100, 50)) = PyInt 8 \<and>
   get_color_depth (sample_image ''PNG'' ''RGB'' (100, 50)) = PyInt 24 \<and>
   get_color_depth (sample_image ''PNG'' ''RGBA'' (100, 50)) = PyInt 32 \<and>
   get_color_depth (sample_image ''TIFF'' ''CMYK'' (100, 50)) = PyInt 32 \<and>
   get_color_depth (sample_image ''TIFF'' ''YCbCr'' (100, 50)) = PyInt 24 \<and>
   get_color_depth (sample_image ''TIFF'' ''LAB'' (100, 50)) = PyInt 24 \<and>
   get_color_depth (sample_image ''TIFF'' ''HSV'' (100, 50)) = PyInt 24 \<and>
   get_color_depth (sample_image ''TIFF'' ''I'' (100, 50)) = PyInt 32 \<and>
   get_color_depth (sample_image ''TIFF'' ''F'' (100, 50)) = PyInt 32 \<and>
   get_color_depth (sample_image ''PNG'' ''I;16'' (100, 50)) = PyStr ''Unknown (I;16)''"
  using get_color_depth_table [of "sample_image ''PNG'' ''1'' (100, 50)"]
    get_color_depth_table [of "sample_image ''PNG'' ''L'' (100, 50)"]
    get_color_depth_table [of "sample_image ''PNG'' ''P'' (100, 50)"]
    get_color_depth_table [of "sample_image ''PNG'' ''RGB'' (100, 50)"]
    get_color_depth_table [of "sample_image ''PNG'' ''RGBA'' (100, 50)"]
    get_color_depth_table [of "sample_image ''TIFF'' ''CMYK'' (100, 50)"]
    get_color_depth_table [of "sample_image ''TIFF'' ''YCbCr'' (100, 50)"]
    get_color_depth_table [of "sample_image ''TIFF'' ''LAB'' (100, 50)"]
    get_color_depth_table [of "sample_image ''TIFF'' ''HSV'' (100, 50)"]
    get_color_depth_table [of "sample_image ''TIFF'' ''I'' (100, 50)"]
    get_color_depth_table [of "sample_image ''TIFF'' ''F'' (100, 50)"]
    get_color_depth_table [of "sample_image ''PNG'' ''I;16'' (100, 50)"]
  by (simp add: sample_image_def)

section \<open>Compression labels\<close>

text \<open>
  Claim C6. For an image whose format tag is \<open>PNG\<close> or \<open>BMP\<close> the compression label is
  the constant \<open>0%\<close>, and for the tag \<open>GIF\<close> it is the constant \<open>LZW\<close>, whatever the mode,
  the size, the metadata, the file and the answers of the decoder are.
\<close>

theorem get_compression_constant_labels:
  "(img_format img = Some ''PNG'' \<or> img_format img = Some ''BMP''
      \<longrightarrow> get_compression w img file_path actual_file_size = ''0%'') \<and>
   (img_format img = Some ''GIF'' \<longrightarrow> get_compression w img file_path actual_file_size = ''LZW'')"
  by (auto simp: get_compression_def)

theorem get_compression_constant_labels_witness:
  "get_compression sample_world (sample_image ''PNG'' ''RGB'' (100, 50)) ''pics/a.png'' 15432 = ''0%'' \<and>
   get_compression sample_world (sample_image ''BMP'' ''P'' (8, 8)) ''pics/b.bmp'' 1142 = ''0%'' \<and>
   get_compression sample_world (sample_image ''GIF'' ''P'' (8, 8)) ''pics/c.gif'' 77 = ''LZW''"
  using get_compression_constant_labels
      [of "sample_image ''PNG'' ''RGB'' (100, 50)" sample_world "''pics/a.png''" 15432]
    get_compression_constant_labels
      [of "sample_image ''BMP'' ''P'' (8, 8)" sample_world "''pics/b.bmp''" 1142]
    get_compression_constant_labels
      [of "sample_image ''GIF'' ''P'' (8, 8)" sample_world "''pics/c.gif''" 77]
  by (simp add: sample_image_def)

section \<open>Evaluation lemmas\<close>

lemma int_str_72: "int_str 72 = ''72''"
  by (simp add: int_str_def digits_str.simps digit_char_def)

section \<open>Resolution\<close>

text \<open>
  Claim C3, as stated, fails: \<open>get_dpi\<close> only checks that the entry is a tuple of two
  components. A pair of negative numbers, or a pair that holds no number at all, is
  printed as it is, not replaced by \<open>72 x 72\<close>.
\<close>

theorem get_dpi_negative_pair_counterexample:
  "get_dpi ((sample_image ''TIFF'' ''RGB'' (100, 50))\<lparr>img_info := [''dpi'' \<mapsto> PyTuple [PyInt (- 300), PyInt (- 300)]]\<rparr>)
     = ''-300 '' @ times_sign @ '' -300'' \<and>
   get_dpi ((sample_image ''TIFF'' ''RGB'' (100, 50))\<lparr>img_info := [''dpi'' \<mapsto> PyTuple [PyInt (- 300), PyInt (- 300)]]\<rparr>)
     \<noteq> ''72 '' @ times_sign @ '' 72'' \<and>
   get_dpi ((sample_image ''TIFF'' ''RGB'' (100, 50))\<lparr>img_info := [''dpi'' \<mapsto> PyTuple [PyStr ''n/a'', PyNone]]\<rparr>)
     = ''n/a '' @ times_sign @ '' None'' \<and>
   get_dpi ((sample_image ''TIFF'' ''RGB'' (100, 50))\<lparr>img_info := [''dpi'' \<mapsto> PyTuple [PyStr ''n/a'', PyNone]]\<rparr>)
     \<noteq> ''72 '' @ times_sign @ '' 72''"
  by (simp add: get_dpi_def dict_get_def sample_image_def py_str_def int_str_def digits_str.simps
      digit_char_def times_sign_def)

text \<open>
  Claim C3, amended. When the \<open>dpi\<close> entry is a tuple of exactly two components,
  \<open>get_dpi\<close> returns the text of the first, the multiplication sign and the text of the
  second, whatever the components are; for two integers these are their decimal
  numerals. When the entry is missing, or is anything but a tuple of two components,
  it returns \<open>72 x 72\<close>.
\<close>

theorem get_dpi_two_tuple:
  "(img_info img ''dpi'' = Some (PyTuple [x, y])
      \<longrightarrow> get_dpi img = py_str x @ '' '' @ times_sign @ '' '' @ py_str y) \<and>
   (img_info img ''dpi'' = Some (PyTuple [PyInt a, PyInt b])
      \<longrightarrow> get_dpi img = int_str a @ '' '' @ times_sign @ '' '' @ int_str b) \<and>
   (img_info img ''dpi'' = None \<longrightarrow> get_dpi img = ''72 '' @ times_sign @ '' 72'') \<and>
   (img_info img ''dpi'' = Some v \<and> (\<forall>vs. v = PyTuple vs \<longrightarrow> length vs \<noteq> 2)
      \<longrightarrow> get_dpi img = ''72 '' @ times_sign @ '' 72'')"
proof -
  have pair: "get_dpi img = py_str x @ '' '' @ times_sign @ '' '' @ py_str y"
    if "img_info img ''dpi'' = Some (PyTuple [x, y])" for x y
    using that by (simp add: get_dpi_def dict_get_def)
  have ints: "get_dpi img = int_str a @ '' '' @ times_sign @ '' '' @ int_str b"
    if "img_info img ''dpi'' = Some (PyTuple [PyInt a, PyInt b])"
    using pair [OF that] by (simp add: py_str_def)
  have missing: "get_dpi img = ''72 '' @ times_sign @ '' 72''" if "img_info img ''dpi'' = None"
    using that by (simp add: get_dpi_def dict_get_def py_str_def int_str_72)
  have other: "get_dpi img = ''72 '' @ times_sign @ '' 72''"
    if "img_info img ''dpi'' = Some v" and "\<forall>vs. v = PyTuple vs \<longrightarrow> length vs \<noteq> 2"
    using that
    by (auto simp: get_dpi_def dict_get_def split: pyval.splits list.splits)
  from pair ints missing other show ?thesis by blast
qed

theorem get_dpi_two_tuple_witness:
  "get_dpi ((sample_image ''PNG'' ''RGB'' (100, 50))\<lparr>img_info := [''dpi'' \<mapsto> PyTuple [PyInt 300, PyInt 150]]\<rparr>)
     = ''300 '' @ times_sign @ '' 150'' \<and>
   get_dpi ((sample_image ''PNG'' ''RGB'' (100, 50))\<lparr>img_info := [''dpi'' \<mapsto> PyTuple [PyOther ''96.012'', PyOther ''96.012'']]\<rparr>)
     = ''96.012 '' @ times_sign @ '' 96.012'' \<and>
   get_dpi (sample_image ''PNG'' ''RGB'' (100, 50)) = ''72 '' @ times_sign @ '' 72'' \<and>
   get_dpi ((sample_image ''PNG'' ''RGB'' (100, 50))\<lparr>img_info := [''dpi'' \<mapsto> PyTuple [PyInt 300]]\<rparr>)
     = ''72 '' @ times_sign @ '' 72'' \<and>
   get_dpi ((sample_image ''PNG'' ''RGB'' (100, 50))\<lparr>img_info := [''dpi'' \<mapsto> PyInt 300]\<rparr>)
     = ''72 '' @ times_sign @ '' 72''"
  using
    get_dpi_two_tuple [of "(sample_image ''PNG'' ''RGB'' (100, 50))\<lparr>img_info := [''dpi'' \<mapsto> PyTuple [PyInt 300, PyInt 150]]\<rparr>"
       "PyInt 300" "PyInt 150" 300 150]
    get_dpi_two_tuple [of "(sample_image ''PNG'' ''RGB'' (100, 50))\<lparr>img_info := [''dpi'' \<mapsto> PyTuple [PyOther ''96.012'', PyOther ''96.012'']]\<rparr>"
       "PyOther ''96.012''" "PyOther ''96.012''"]
    get_dpi_two_tuple [of "sample_image ''PNG'' ''RGB'' (100, 50)"]
    get_dpi_two_tuple [of "(sample_image ''PNG'' ''RGB'' (100, 50))\<lparr>img_info := [''dpi'' \<mapsto> PyTuple [PyInt 300]]\<rparr>"
       _ _ _ _ "PyTuple [PyInt 300]"]
    get_dpi_two_tuple [of "(sample_image ''PNG'' ''RGB'' (100, 50))\<lparr>img_info := [''dpi'' \<mapsto> PyInt 300]\<rparr>"
       _ _ _ _ "PyInt 300"]
  by (simp add: sample_image_def py_str_def int_str_def digits_str.simps digit_char_def)

section \<open>The image that is re-encoded\<close>




section \<open>Facts about \<^verbatim>\<open>get_image_info\<close>\<close>

lemma file_size_mb_str_Inr: "\<exists>t. file_size_mb_str n = Inr t"
proof -
  obtain m e where "round_to_double (int n) 1024 = F64 m e"
    by (cases "round_to_double (int n) 1024") auto
  then show ?thesis
    by (simp add: file_size_mb_str_def py_truediv_def)
qed

lemma file_size_mb_str_2048: "file_size_mb_str 2048 = Inr ''0.00''"
  by code_simp

lemma file_size_mb_str_15432: "file_size_mb_str 15432 = Inr ''0.01''"
  by code_simp

lemma get_image_info_open_fails:
  "image_open w p = Inl ex \<Longrightarrow>
   get_image_info w p =
     [''filename'' \<mapsto> PyStr (basename p), ''filepath'' \<mapsto> PyStr p, ''error'' \<mapsto> PyStr (error_str ex),
      ''format'' \<mapsto> PyStr ''Error'', ''size_str'' \<mapsto> PyStr ''Error'', ''dpi'' \<mapsto> PyStr ''Error'',
      ''color_depth'' \<mapsto> PyStr ''Error'', ''compression'' \<mapsto> PyStr ''Error'',
      ''file_size_mb'' \<mapsto> PyStr ''Error'']"
  by (simp add: get_image_info_def get_image_info_body_def)

lemma get_image_info_stat_fails:
  "image_open w p = Inr img \<Longrightarrow> os_stat w p = Inl ex \<Longrightarrow>
   get_image_info w p =
     [''filename'' \<mapsto> PyStr (basename p), ''filepath'' \<mapsto> PyStr p, ''error'' \<mapsto> PyStr (error_str ex),
      ''format'' \<mapsto> PyStr ''Error'', ''size_str'' \<mapsto> PyStr ''Error'', ''dpi'' \<mapsto> PyStr ''Error'',
      ''color_depth'' \<mapsto> PyStr ''Error'', ''compression'' \<mapsto> PyStr ''Error'',
      ''file_size_mb'' \<mapsto> PyStr ''Error'']"
  by (simp add: get_image_info_def get_image_info_body_def)

lemma get_image_info_succeeds:
  "image_open w p = Inr img \<Longrightarrow> os_stat w p = Inr n \<Longrightarrow> file_size_mb_str n = Inr t \<Longrightarrow>
   get_image_info w p =
     [''filename'' \<mapsto> PyStr (basename p),
      ''filepath'' \<mapsto> PyStr p,
      ''format'' \<mapsto> PyStr (case img_format img of None \<Rightarrow> ''Unknown''
                                | Some f \<Rightarrow> if f = [] then ''Unknown'' else f),
      ''width'' \<mapsto> PyInt (int (fst (img_size img))),
      ''height'' \<mapsto> PyInt (int (snd (img_size img))),
      ''size_str'' \<mapsto> PyStr (int_str (int (fst (img_size img))) @ '' '' @ times_sign
                              @ '' '' @ int_str (int (snd (img_size img)))),
      ''mode'' \<mapsto> PyStr (img_mode img),
      ''color_depth'' \<mapsto> get_color_depth img,
      ''dpi'' \<mapsto> PyStr (get_dpi img),
      ''compression'' \<mapsto> PyStr (get_compression w img p n),
      ''file_size_mb'' \<mapsto> PyStr t,
      ''error'' \<mapsto> PyNone]"
  by (simp add: get_image_info_def get_image_info_body_def)

lemma get_image_info_cases:
  obtains (open_fails) ex where "image_open w p = Inl ex"
  | (stat_fails) img ex where "image_open w p = Inr img" "os_stat w p = Inl ex"
  | (succeeds) img n t where "image_open w p = Inr img" "os_stat w p = Inr n" "file_size_mb_str n = Inr t"
proof (cases "image_open w p")
  case (Inl ex)
  then show ?thesis by (rule open_fails)
next
  case (Inr img)
  note opened = this
  show ?thesis
  proof (cases "os_stat w p")
    case (Inl ex)
    with opened show ?thesis by (rule stat_fails)
  next
    case (Inr n)
    obtain t where "file_size_mb_str n = Inr t"
      using file_size_mb_str_Inr by blast
    with opened Inr show ?thesis by (rule succeeds)
  qed
qed

lemma sample_open_bad:
  "image_open sample_world ''pics/bad.jpg''
     = Inl (UnidentifiedImageError (''cannot identify image file '' @ repr_str ''pics/bad.jpg''))"
  by (simp add: sample_world_def sample_files_def)

lemma sample_stat_bad: "os_stat sample_world ''pics/bad.jpg'' = Inr 2048"
  by (simp add: sample_world_def sample_files_def)

lemma sample_open_png:
  "image_open sample_world ''pics/a.png'' = Inr (sample_image ''PNG'' ''RGB'' (100, 50))"
  by (simp add: sample_world_def sample_files_def)

lemma sample_stat_png: "os_stat sample_world ''pics/a.png'' = Inr 15432"
  by (simp add: sample_world_def sample_files_def)

section \<open>The file size in the record\<close>

text \<open>
  Claim C4, as stated, fails: the size is asked of the file system inside the same
  \<^verbatim>\<open>try\<close> block, after the file has been opened. For a file of 2048 bytes that the
  decoder cannot identify, the record carries \<open>Error\<close> in its file-size field.
\<close>

theorem file_size_lost_on_decode_failure_counterexample:
  "os_stat sample_world ''pics/bad.jpg'' = Inr 2048 \<and>
   file_size_mb_str 2048 = Inr ''0.00'' \<and>
   get_image_info sample_world ''pics/bad.jpg'' ''file_size_mb'' = Some (PyStr ''Error'') \<and>
   get_image_info sample_world ''pics/bad.jpg'' ''file_size_mb'' \<noteq> Some (PyStr ''0.00'')"
  by (simp add: sample_stat_bad file_size_mb_str_2048 get_image_info_open_fails [OF sample_open_bad])

text \<open>
  Claim C4, amended. The file-size field carries the byte size of the file, in megabytes
  with two decimals, when the file opens and the file system gives its size; when
  opening fails, or the file system does not give the size, it carries \<open>Error\<close>.
\<close>

theorem file_size_reported_after_open:
  "(image_open w p = Inl ex \<longrightarrow> get_image_info w p ''file_size_mb'' = Some (PyStr ''Error'')) \<and>
   (image_open w p = Inr img \<and> os_stat w p = Inl ex
      \<longrightarrow> get_image_info w p ''file_size_mb'' = Some (PyStr ''Error'')) \<and>
   (image_open w p = Inr img \<and> os_stat w p = Inr n
      \<longrightarrow> (\<exists>t. file_size_mb_str n = Inr t \<and> get_image_info w p ''file_size_mb'' = Some (PyStr t)))"
proof -
  have "\<exists>t. file_size_mb_str n = Inr t \<and> get_image_info w p ''file_size_mb'' = Some (PyStr t)"
    if "image_open w p = Inr img" "os_stat w p = Inr n"
  proof -
    obtain t where t: "file_size_mb_str n = Inr t"
      using file_size_mb_str_Inr by blast
    have "get_image_info w p ''file_size_mb'' = Some (PyStr t)"
      by (simp add: get_image_info_succeeds [OF that t])
    with t show ?thesis by blast
  qed
  then show ?thesis
    by (simp add: get_image_info_open_fails get_image_info_stat_fails)
qed

theorem file_size_reported_after_open_witness:
  "get_image_info sample_world ''pics/bad.jpg'' ''file_size_mb'' = Some (PyStr ''Error'') \<and>
   get_image_info sample_world ''pics/a.png'' ''file_size_mb'' = Some (PyStr ''0.01'')"
  using
    file_size_reported_after_open [of sample_world "''pics/bad.jpg''"
      "UnidentifiedImageError (''cannot identify image file '' @ repr_str ''pics/bad.jpg'')"]
    file_size_reported_after_open [of sample_world "''pics/a.png''" _
      "sample_image ''PNG'' ''RGB'' (100, 50)" 15432]
  by (simp add: sample_open_bad sample_open_png sample_stat_png file_size_mb_str_15432)

section \<open>One record for each path\<close>

lemma process_files_append_map:
  "process_files w paths processed_data = processed_data @ map (get_image_info w) paths"
  by (induction paths arbitrary: processed_data) simp_all

lemma get_image_info_filepath: "get_image_info w p ''filepath'' = Some (PyStr p)"
  by (cases w p rule: get_image_info_cases)
    (simp_all add: get_image_info_open_fails get_image_info_stat_fails get_image_info_succeeds)

lemma scan_folder_sample:
  "scan_folder sample_world ''pics''
     = [''pics/a.png'', ''pics/bad.jpg'', ''pics/tiny.jpg'', ''pics/sub/strip.JPG'',
           ''pics/sub/print.jpg'']"
  by (simp add: scan_folder_def sample_world_def splitext_ext_def lower_def lower_char_def
      image_extensions_def path_join_def)

text \<open>
  Claim C2. The loop over \<open>N\<close> paths produces \<open>N\<close> records, the record at each position
  being the one of the path at that position: it names that path and depends on no
  other path. When opening a path raises, its record holds the text of the exception in
  \<open>error\<close> and the word \<open>Error\<close> in the format, size, resolution, colour depth,
  compression and file size. When the scan finds a path, these records are what
  \<open>scan_and_process_folder\<close> stores.
\<close>

theorem process_files_one_record_per_path:
  "length (process_files w paths []) = length paths \<and>
   (\<forall>i < length paths.
      process_files w paths [] ! i = get_image_info w (paths ! i) \<and>
      (process_files w paths [] ! i) ''filepath'' = Some (PyStr (paths ! i)) \<and>
      (\<forall>ex. image_open w (paths ! i) = Inl ex \<longrightarrow>
         (process_files w paths [] ! i) ''error'' = Some (PyStr (error_str ex)) \<and>
         list_all (\<lambda>k. (process_files w paths [] ! i) k = Some (PyStr ''Error'')) derived_keys)) \<and>
   (scan_folder w folder \<noteq> [] \<longrightarrow>
      processed_files (scan_and_process_folder w st folder)
        = map (get_image_info w) (scan_folder w folder))"
proof -
  have all: "process_files w paths [] = map (get_image_info w) paths"
    by (simp add: process_files_append_map)
  have failed: "get_image_info w p ''error'' = Some (PyStr (error_str ex)) \<and>
      list_all (\<lambda>k. get_image_info w p k = Some (PyStr ''Error'')) derived_keys"
    if "image_open w p = Inl ex" for p ex
    by (simp add: get_image_info_open_fails [OF that] derived_keys_def)
  have state: "processed_files (scan_and_process_folder w st folder)
        = map (get_image_info w) (scan_folder w folder)"
    if "scan_folder w folder \<noteq> []"
    using that by (simp add: scan_and_process_folder_def Let_def process_files_append_map)
  from failed state show ?thesis
    by (simp add: all get_image_info_filepath)
qed

theorem process_files_one_record_per_path_witness:
  "length (process_files sample_world [''pics/a.png'', ''pics/bad.jpg'', ''pics/tiny.jpg''] []) = 3 \<and>
   (process_files sample_world [''pics/a.png'', ''pics/bad.jpg'', ''pics/tiny.jpg''] [] ! 1) ''filepath''
      = Some (PyStr ''pics/bad.jpg'') \<and>
   (process_files sample_world [''pics/a.png'', ''pics/bad.jpg'', ''pics/tiny.jpg''] [] ! 1) ''error''
      = Some (PyStr (''cannot identify image file '' @ repr_str ''pics/bad.jpg'')) \<and>
   (process_files sample_world [''pics/a.png'', ''pics/bad.jpg'', ''pics/tiny.jpg''] [] ! 1) ''format''
      = Some (PyStr ''Error'') \<and>
   (process_files sample_world [''pics/a.png'', ''pics/bad.jpg'', ''pics/tiny.jpg''] [] ! 2)
      = get_image_info sample_world ''pics/tiny.jpg'' \<and>
   processed_files (scan_and_process_folder sample_world \<lparr>folder_path = ''pics'', processed_files = []\<rparr> ''pics'')
      = map (get_image_info sample_world)
          [''pics/a.png'', ''pics/bad.jpg'', ''pics/tiny.jpg'', ''pics/sub/strip.JPG'',
           ''pics/sub/print.jpg'']"
proof -
  let ?paths = "[''pics/a.png'', ''pics/bad.jpg'', ''pics/tiny.jpg'']"
  let ?st = "\<lparr>folder_path = ''pics'', processed_files = []\<rparr>"
  note inst = process_files_one_record_per_path [of sample_world ?paths "''pics''" ?st]
  have len: "length (process_files sample_world ?paths []) = 3"
    using inst [THEN conjunct1] by simp
  have i1: "1 < length ?paths" and i2: "2 < length ?paths"
    by simp_all
  note r1 = inst [THEN conjunct2, THEN conjunct1, rule_format, OF i1]
  note r2 = inst [THEN conjunct2, THEN conjunct1, rule_format, OF i2]
  have path1: "(process_files sample_world ?paths [] ! 1) ''filepath'' = Some (PyStr ''pics/bad.jpg'')"
    using r1 [THEN conjunct2, THEN conjunct1] by simp
  have "(process_files sample_world ?paths [] ! 1) ''error''
        = Some (PyStr (error_str (UnidentifiedImageError
            (''cannot identify image file '' @ repr_str ''pics/bad.jpg'')))) \<and>
      list_all (\<lambda>k. (process_files sample_world ?paths [] ! 1) k = Some (PyStr ''Error'')) derived_keys"
    using r1 [THEN conjunct2, THEN conjunct2, rule_format,
        of "UnidentifiedImageError (''cannot identify image file '' @ repr_str ''pics/bad.jpg'')"]
      sample_open_bad
    by simp
  then have err: "(process_files sample_world ?paths [] ! 1) ''error''
        = Some (PyStr (''cannot identify image file '' @ repr_str ''pics/bad.jpg''))"
    and fmt: "(process_files sample_world ?paths [] ! 1) ''format'' = Some (PyStr ''Error'')"
    by (simp_all add: derived_keys_def)
  have two: "process_files sample_world ?paths [] ! 2 = get_image_info sample_world ''pics/tiny.jpg''"
    using r2 [THEN conjunct1] by simp
  have st: "processed_files (scan_and_process_folder sample_world ?st ''pics'')
      = map (get_image_info sample_world)
          [''pics/a.png'', ''pics/bad.jpg'', ''pics/tiny.jpg'', ''pics/sub/strip.JPG'',
           ''pics/sub/print.jpg'']"
    using inst [THEN conjunct2, THEN conjunct2] by (simp add: scan_folder_sample)
  from len path1 err fmt two st show ?thesis by blast
qed

section \<open>The two shapes of a record\<close>

lemma jpeg_ratio_body_fails:
  "jpeg_ratio_body w img n = Inl ex \<Longrightarrow>
   calculate_jpeg_compression_ratio w img n = ''Error: '' @ error_str ex"
  by (simp add: calculate_jpeg_compression_ratio_def)

lemma sample_open_print:
  "image_open sample_world ''pics/sub/print.jpg'' = Inr (sample_image ''JPEG'' ''CMYK'' (8, 8))"
  by (simp add: sample_world_def sample_files_def)

lemma sample_stat_print: "os_stat sample_world ''pics/sub/print.jpg'' = Inr 1200"
  by (simp add: sample_world_def sample_files_def)

lemma sample_body_print:
  "jpeg_ratio_body sample_world (sample_image ''JPEG'' ''CMYK'' (8, 8)) 1200
     = Inl (OSError ''cannot write mode CMYK as BMP'')"
  by (simp add: jpeg_ratio_body_def rgb_img_def sample_world_def sample_image_def)

text \<open>
  Claim C9. Every record is fully successful (no error, every field present) or fully
  failed (an error text, \<open>Error\<close> in every derived field); it is failed exactly when
  opening the file or reading its size raises. In a successful record the width, the
  height, the colour depth and the resolution are those of the decoded image, and the
  compression field is the estimator's answer; the one failure that a successful record
  can carry is that of the JPEG re-encoding, as the text \<open>Error: ...\<close> in the
  compression field alone.
\<close>

theorem record_success_or_failure:
  "(fully_successful (get_image_info w p) \<or> fully_failed (get_image_info w p)) \<and>
   ((\<exists>ex. image_open w p = Inl ex) \<or> (\<exists>ex. os_stat w p = Inl ex)
      \<longrightarrow> fully_failed (get_image_info w p)) \<and>
   (\<forall>img n. image_open w p = Inr img \<and> os_stat w p = Inr n \<longrightarrow>
      fully_successful (get_image_info w p) \<and>
      get_image_info w p ''width'' = Some (PyInt (int (fst (img_size img)))) \<and>
      get_image_info w p ''height'' = Some (PyInt (int (snd (img_size img)))) \<and>
      get_image_info w p ''color_depth'' = Some (get_color_depth img) \<and>
      get_image_info w p ''dpi'' = Some (PyStr (get_dpi img)) \<and>
      get_image_info w p ''compression'' = Some (PyStr (get_compression w img p n)) \<and>
      (\<forall>ex. img_format img = Some ''JPEG'' \<and> jpeg_ratio_body w img n = Inl ex \<longrightarrow>
         get_image_info w p ''compression'' = Some (PyStr (''Error: '' @ error_str ex))))"
proof (cases w p rule: get_image_info_cases)
  case (open_fails ex)
  then show ?thesis
    by (simp add: get_image_info_open_fails fully_failed_def derived_keys_def)
next
  case (stat_fails img ex)
  then show ?thesis
    by (simp add: get_image_info_stat_fails fully_failed_def derived_keys_def)
next
  case (succeeds img n t)
  have depth: "get_color_depth img \<noteq> PyNone"
    by (simp add: get_color_depth_def split: option.splits)
  have jpeg: "get_compression w img p n = ''Error: '' @ error_str ex"
    if "img_format img = Some ''JPEG''" "jpeg_ratio_body w img n = Inl ex" for ex
    using that by (simp add: get_compression_def jpeg_ratio_body_fails)
  from succeeds depth jpeg show ?thesis
    by (simp add: get_image_info_succeeds [OF succeeds] fully_successful_def record_keys_def)
qed

theorem record_success_or_failure_witness:
  "fully_failed (get_image_info sample_world ''pics/bad.jpg'') \<and>
   fully_successful (get_image_info sample_world ''pics/sub/print.jpg'') \<and>
   get_image_info sample_world ''pics/sub/print.jpg'' ''width'' = Some (PyInt 8) \<and>
   get_image_info sample_world ''pics/sub/print.jpg'' ''height'' = Some (PyInt 8) \<and>
   get_image_info sample_world ''pics/sub/print.jpg'' ''color_depth'' = Some (PyInt 32) \<and>
   get_image_info sample_world ''pics/sub/print.jpg'' ''dpi'' = Some (PyStr (''72 '' @ times_sign @ '' 72'')) \<and>
   get_image_info sample_world ''pics/sub/print.jpg'' ''compression''
     = Some (PyStr ''Error: cannot write mode CMYK as BMP'')"
proof -
  let ?img = "sample_image ''JPEG'' ''CMYK'' (8, 8)"
  have bad: "fully_failed (get_image_info sample_world ''pics/bad.jpg'')"
    using record_success_or_failure [of sample_world "''pics/bad.jpg''", THEN conjunct2, THEN conjunct1]
      sample_open_bad
    by blast
  have "image_open sample_world ''pics/sub/print.jpg'' = Inr ?img
      \<and> os_stat sample_world ''pics/sub/print.jpg'' = Inr 1200"
    by (simp add: sample_open_print sample_stat_print)
  note ok = record_success_or_failure [of sample_world "''pics/sub/print.jpg''",
      THEN conjunct2, THEN conjunct2, rule_format, OF this]
  have fmt: "img_format ?img = Some ''JPEG'' \<and>
      jpeg_ratio_body sample_world ?img 1200 = Inl (OSError ''cannot write mode CMYK as BMP'')"
    by (simp add: sample_body_print) (simp add: sample_image_def)
  from ok have "get_image_info sample_world ''pics/sub/print.jpg'' ''compression''
      = Some (PyStr (''Error: '' @ error_str (OSError ''cannot write mode CMYK as BMP'')))"
    using fmt by blast
  then have comp: "get_image_info sample_world ''pics/sub/print.jpg'' ''compression''
      = Some (PyStr ''Error: cannot write mode CMYK as BMP'')"
    by simp
  have depth: "get_color_depth ?img = PyInt 32"
    by (simp add: get_color_depth_def mode_bits_def sample_image_def)
  have dpi: "get_dpi ?img = ''72 '' @ times_sign @ '' 72''"
    by (simp add: get_dpi_def dict_get_def sample_image_def py_str_def int_str_72)
  have size: "img_size ?img = (8, 8)"
    by (simp add: sample_image_def)
  from ok bad comp show ?thesis
    by (simp add: depth dpi size)
qed

section \<open>The scanner\<close>

lemma rfind_None_iff: "rfind c s = None \<longleftrightarrow> c \<notin> set s"
  by (induction s) (auto split: option.splits)

lemma rfind_less: "rfind c s = Some i \<Longrightarrow> i < length s"
  by (induction s arbitrary: i) (auto split: option.splits if_splits)

lemma rfind_append:
  "rfind c (s @ t) = (case rfind c t of Some i \<Rightarrow> Some (length s + i) | None \<Rightarrow> rfind c s)"
  by (induction s) (auto split: option.splits)

lemma rfind_last:
  assumes "s \<noteq> []" and "last s = c"
  shows "rfind c s = Some (length s - 1)"
proof -
  have "rfind c (butlast s @ [c]) = Some (length (butlast s))"
    by (simp add: rfind_append)
  moreover from assms have "butlast s @ [c] = s"
    using append_butlast_last_id [of s] by simp
  ultimately show ?thesis
    by simp
qed

lemma splitext_ext_no_sep:
  assumes "CHR ''/'' \<notin> set b"
  shows "splitext_ext b =
     (case rfind CHR ''.'' b of
        None \<Rightarrow> []
      | Some d \<Rightarrow> if list_ex (\<lambda>c. c \<noteq> CHR ''.'') (take d b) then drop d b else [])"
proof -
  from assms have "rfind CHR ''/'' b = None"
    by (simp add: rfind_None_iff)
  then show ?thesis
    by (simp add: splitext_ext_def Let_def split: option.splits)
qed

lemma splitext_ext_dir_prefix:
  assumes b: "CHR ''/'' \<notin> set b" and a: "a = [] \<or> last a = CHR ''/''"
  shows "splitext_ext (a @ b) = splitext_ext b"
proof (cases "a = []")
  case True
  then show ?thesis by simp
next
  case False
  with a have sep_a: "rfind CHR ''/'' a = Some (length a - 1)"
    by (simp add: rfind_last)
  from b have nosep_b: "rfind CHR ''/'' b = None"
    by (simp add: rfind_None_iff)
  with sep_a have sep: "rfind CHR ''/'' (a @ b) = Some (length a - 1)"
    by (simp add: rfind_append)
  from False have len: "Suc (length a - 1) = length a"
    by (cases a) auto
  show ?thesis
  proof (cases "rfind CHR ''.'' b")
    case None
    show ?thesis
    proof (cases "rfind CHR ''.'' a")
      case None
      with \<open>rfind CHR ''.'' b = None\<close> show ?thesis
        by (simp add: splitext_ext_def Let_def rfind_append)
    next
      case (Some d)
      then have "d < length a"
        by (rule rfind_less)
      with Some \<open>rfind CHR ''.'' b = None\<close> sep len show ?thesis
        by (simp add: splitext_ext_def Let_def rfind_append)
    qed
  next
    case (Some d)
    then have "rfind CHR ''.'' (a @ b) = Some (length a + d)"
      by (simp add: rfind_append)
    with Some sep len show ?thesis
      by (simp add: splitext_ext_def Let_def nosep_b)
  qed
qed

lemma splitext_ext_path_join:
  assumes "CHR ''/'' \<notin> set fname"
  shows "splitext_ext (path_join root fname) = splitext_ext fname"
proof -
  from assms have nohead: "\<not> (fname \<noteq> [] \<and> hd fname = CHR ''/'')"
    by (cases fname) auto
  show ?thesis
  proof (cases "root = [] \<or> last root = CHR ''/''")
    case True
    with nohead have "path_join root fname = root @ fname"
      by (auto simp: path_join_def)
    with True assms show ?thesis
      by (simp add: splitext_ext_dir_prefix)
  next
    case False
    with nohead have pj: "path_join root fname = (root @ ''/'') @ fname"
      by (auto simp: path_join_def)
    have "splitext_ext ((root @ ''/'') @ fname) = splitext_ext fname"
      using assms by (intro splitext_ext_dir_prefix) simp_all
    then show ?thesis
      by (simp only: pj)
  qed
qed

lemma scan_files_ext:
  assumes "\<forall>f \<in> set files. CHR ''/'' \<notin> set f"
    and "\<forall>p \<in> set image_files. lower (splitext_ext p) \<in> image_extensions"
  shows "\<forall>p \<in> set (scan_files root files image_files). lower (splitext_ext p) \<in> image_extensions"
  using assms
proof (induction files arbitrary: image_files)
  case Nil
  then show ?case by simp
next
  case (Cons fname files)
  from Cons.prems have rest: "\<forall>f \<in> set files. CHR ''/'' \<notin> set f"
    and here: "CHR ''/'' \<notin> set fname"
    by simp_all
  show ?case
  proof (cases "lower (splitext_ext fname) \<in> image_extensions")
    case True
    with Cons.prems here
    have ext: "\<forall>p \<in> set (image_files @ [path_join root fname]).
        lower (splitext_ext p) \<in> image_extensions"
      by (simp add: splitext_ext_path_join)
    from Cons.IH [OF rest ext] True show ?thesis
      by simp
  next
    case False
    from Cons.prems have "\<forall>p \<in> set image_files. lower (splitext_ext p) \<in> image_extensions"
      by simp
    from Cons.IH [OF rest this] False show ?thesis
      by simp
  qed
qed

lemma scan_walk_ext:
  assumes "\<forall>(root, dirs, files) \<in> set walk. \<forall>f \<in> set files. CHR ''/'' \<notin> set f"
    and "\<forall>p \<in> set image_files. lower (splitext_ext p) \<in> image_extensions"
  shows "\<forall>p \<in> set (scan_walk walk image_files). lower (splitext_ext p) \<in> image_extensions"
  using assms
proof (induction walk image_files rule: scan_walk.induct)
  case (1 image_files)
  then show ?case by simp
next
  case (2 root dirs files rest image_files)
  from "2.prems" have here: "\<forall>p \<in> set (scan_files root files image_files).
      lower (splitext_ext p) \<in> image_extensions"
    by (intro scan_files_ext) auto
  show ?case
  proof (cases "100000 \<le> length (scan_files root files image_files)")
    case True
    with here show ?thesis by (simp add: Let_def)
  next
    case False
    with "2.IH" [OF refl False] "2.prems" here show ?thesis
      by (simp add: Let_def)
  qed
qed

text \<open>
  Claim C8. \<open>scan_folder\<close> returns at most 100000 paths, and the extension of every
  returned path, taken by \<^verbatim>\<open>os.path.splitext\<close> and put in lower case, is one of the eight
  recognised extensions. The names that \<^verbatim>\<open>os.walk\<close> lists in a directory are single path
  components: they hold no separator, which is the hypothesis.
\<close>

theorem scan_folder_capped_and_filtered:
  assumes "\<forall>(root, dirs, files) \<in> set (os_walk w folder). \<forall>f \<in> set files. CHR ''/'' \<notin> set f"
  shows "length (scan_folder w folder) \<le> 100000 \<and>
    (\<forall>p \<in> set (scan_folder w folder).
       lower (splitext_ext p) \<in> {''.jpg'', ''.jpeg'', ''.gif'', ''.tif'', ''.tiff'', ''.bmp'', ''.png'', ''.pcx''})"
proof -
  have "\<forall>p \<in> set (scan_walk (os_walk w folder) []). lower (splitext_ext p) \<in> image_extensions"
    using assms by (intro scan_walk_ext) auto
  then have "\<forall>p \<in> set (scan_folder w folder). lower (splitext_ext p) \<in> image_extensions"
    by (auto simp: scan_folder_def dest: in_set_takeD)
  then show ?thesis
    by (simp add: scan_folder_def image_extensions_def)
qed

theorem scan_folder_capped_and_filtered_witness:
  "scan_folder sample_world ''pics''
     = [''pics/a.png'', ''pics/bad.jpg'', ''pics/tiny.jpg'', ''pics/sub/strip.JPG'',
           ''pics/sub/print.jpg''] \<and>
   length (scan_folder sample_world ''pics'') \<le> 100000 \<and>
   lower (splitext_ext ''pics/sub/strip.JPG'')
     \<in> {''.jpg'', ''.jpeg'', ''.gif'', ''.tif'', ''.tiff'', ''.bmp'', ''.png'', ''.pcx''}"
proof -
  have "\<forall>(root, dirs, files) \<in> set (os_walk sample_world ''pics''). \<forall>f \<in> set files. CHR ''/'' \<notin> set f"
    by (simp add: sample_world_def)
  note inst = scan_folder_capped_and_filtered [OF this]
  have "''pics/sub/strip.JPG'' \<in> set (scan_folder sample_world ''pics'')"
    by (simp add: scan_folder_sample)
  with inst [THEN conjunct2]
  have "lower (splitext_ext ''pics/sub/strip.JPG'')
     \<in> {''.jpg'', ''.jpeg'', ''.gif'', ''.tif'', ''.tiff'', ''.bmp'', ''.png'', ''.pcx''}"
    by (rule bspec)
  with inst [THEN conjunct1] scan_folder_sample show ?thesis
    by blast
qed

section \<open>The JPEG compression ratio\<close>

lemma percent_58_631: "format_f 1 (float_mul_int (round_to_double (- 573) 58) 100) = ''-987.9''"
  by code_simp

lemma percent_502_565: "format_f 1 (float_mul_int (round_to_double (- 63) 502) 100) = ''-12.5''"
  by code_simp

lemma percent_15054_15432: "format_f 1 (float_mul_int (round_to_double 14000 15054) 100) = ''93.0''"
  by code_simp

lemma py_truediv_Inr: "b \<noteq> 0 \<Longrightarrow> \<exists>ratio. py_truediv a b = Inr ratio"
  by (simp add: py_truediv_def)

text \<open>
  Claim C1. When the image (converted if its mode asks for it) is written as a BMP of
  \<open>uncompressed_size\<close> bytes and that number is positive, the estimator returns the float
  \<open>((uncompressed_size - actual_file_size) / uncompressed_size) * 100\<close> printed with one
  decimal, followed by the percent sign. When the BMP has no bytes it returns \<open>N/A\<close>;
  the division, which would raise \<^verbatim>\<open>ZeroDivisionError\<close>, is not made.
\<close>

theorem jpeg_ratio_percentage_or_na:
  "(rgb_img w img = Inr rgb \<and> save_bmp w rgb = Inr uncompressed_size \<and> 0 < uncompressed_size \<longrightarrow>
      (\<exists>ratio. py_truediv (int uncompressed_size - int actual_file_size) (int uncompressed_size) = Inr ratio \<and>
         calculate_jpeg_compression_ratio w img actual_file_size
           = format_f 1 (float_mul_int ratio 100) @ ''%'')) \<and>
   (rgb_img w img = Inr rgb \<and> save_bmp w rgb = Inr 0 \<longrightarrow>
      calculate_jpeg_compression_ratio w img actual_file_size = ''N/A'' \<and>
      py_truediv (int 0 - int actual_file_size) (int 0) = Inl ZeroDivisionError)"
proof -
  have percent: "\<exists>ratio. py_truediv (int uncompressed_size - int actual_file_size) (int uncompressed_size) = Inr ratio \<and>
         calculate_jpeg_compression_ratio w img actual_file_size
           = format_f 1 (float_mul_int ratio 100) @ ''%''"
    if "rgb_img w img = Inr rgb" "save_bmp w rgb = Inr uncompressed_size" "0 < uncompressed_size"
  proof -
    from that(3) obtain ratio
      where ratio: "py_truediv (int uncompressed_size - int actual_file_size) (int uncompressed_size) = Inr ratio"
      using py_truediv_Inr [of "int uncompressed_size"] by auto
    with that have "calculate_jpeg_compression_ratio w img actual_file_size
        = format_f 1 (float_mul_int ratio 100) @ ''%''"
      by (simp add: calculate_jpeg_compression_ratio_def jpeg_ratio_body_def)
    with ratio show ?thesis by blast
  qed
  have na: "calculate_jpeg_compression_ratio w img actual_file_size = ''N/A''"
    if "rgb_img w img = Inr rgb" "save_bmp w rgb = Inr 0"
    using that by (simp add: calculate_jpeg_compression_ratio_def jpeg_ratio_body_def)
  from percent na show ?thesis
    by (simp add: py_truediv_def)
qed

theorem jpeg_ratio_percentage_or_na_witness:
  "calculate_jpeg_compression_ratio sample_world (sample_image ''JPEG'' ''RGB'' (100, 50)) 1054 = ''93.0%'' \<and>
   calculate_jpeg_compression_ratio (sample_world\<lparr>save_bmp := \<lambda>img. Inr 0\<rparr>)
      (sample_image ''JPEG'' ''RGB'' (100, 50)) 1054 = ''N/A''"
proof -
  let ?img = "sample_image ''JPEG'' ''RGB'' (100, 50)"
  let ?empty = "sample_world\<lparr>save_bmp := \<lambda>img. Inr 0\<rparr>"
  have rgb: "rgb_img sample_world ?img = Inr ?img" "rgb_img ?empty ?img = Inr ?img"
    by (simp_all add: rgb_img_def sample_image_def)
  have bmp: "save_bmp sample_world ?img = Inr 15054"
    by (simp add: sample_world_def sample_image_def)
  have none: "save_bmp ?empty ?img = Inr 0"
    by simp
  have ratio: "py_truediv (int 15054 - int 1054) (int 15054) = Inr (round_to_double 14000 15054)"
    by (simp add: py_truediv_def)
  from jpeg_ratio_percentage_or_na [of sample_world ?img ?img 15054 1054, THEN conjunct1] rgb bmp ratio
  have "calculate_jpeg_compression_ratio sample_world ?img 1054
      = format_f 1 (float_mul_int (round_to_double 14000 15054) 100) @ ''%''"
    by (simp del: One_nat_def)
  then have one: "calculate_jpeg_compression_ratio sample_world ?img 1054 = ''93.0%''"
    by (simp add: percent_15054_15432 del: One_nat_def)
  from jpeg_ratio_percentage_or_na [of ?empty ?img ?img _ 1054, THEN conjunct2] rgb none
  have "calculate_jpeg_compression_ratio ?empty ?img 1054 = ''N/A''"
    by simp
  with one show ?thesis by simp
qed

text \<open>
  Claim C10. The ratio is not clamped: a file larger than its BMP re-encoding gets a
  negative percentage. The one-pixel JPEG of 631 bytes, whose BMP has 58 bytes, is
  reported as \<open>-987.9%\<close>, also in its record; the 37 by 4 JPEG of 565 bytes, whose BMP
  has 502 bytes, as \<open>-12.5%\<close>.
\<close>

theorem jpeg_ratio_negative:
  "img_format (sample_image ''JPEG'' ''RGB'' (1, 1)) = Some ''JPEG'' \<and>
   save_bmp sample_world (sample_image ''JPEG'' ''RGB'' (1, 1)) = Inr 58 \<and>
   os_stat sample_world ''pics/tiny.jpg'' = Inr 631 \<and>
   (58 :: nat) < 631 \<and>
   get_compression sample_world (sample_image ''JPEG'' ''RGB'' (1, 1)) ''pics/tiny.jpg'' 631 = ''-987.9%'' \<and>
   get_image_info sample_world ''pics/tiny.jpg'' ''compression'' = Some (PyStr ''-987.9%'') \<and>
   save_bmp sample_world (sample_image ''JPEG'' ''RGB'' (37, 4)) = Inr 502 \<and>
   (502 :: nat) < 565 \<and>
   get_compression sample_world (sample_image ''JPEG'' ''RGB'' (37, 4)) ''pics/sub/strip.JPG'' 565 = ''-12.5%''"
proof -
  let ?tiny = "sample_image ''JPEG'' ''RGB'' (1, 1)"
  let ?strip = "sample_image ''JPEG'' ''RGB'' (37, 4)"
  have bmp: "save_bmp sample_world ?tiny = Inr 58" "save_bmp sample_world ?strip = Inr 502"
    by (simp_all add: sample_world_def sample_image_def)
  have rgb: "rgb_img sample_world ?tiny = Inr ?tiny" "rgb_img sample_world ?strip = Inr ?strip"
    by (simp_all add: rgb_img_def sample_image_def)
  have fmt: "img_format ?tiny = Some ''JPEG''" "img_format ?strip = Some ''JPEG''"
    by (simp_all add: sample_image_def)
  have tiny: "get_compression sample_world ?tiny ''pics/tiny.jpg'' 631 = ''-987.9%''"
    by (simp add: get_compression_def fmt calculate_jpeg_compression_ratio_def jpeg_ratio_body_def
        rgb bmp py_truediv_def percent_58_631 del: One_nat_def)
  have strip: "get_compression sample_world ?strip ''pics/sub/strip.JPG'' 565 = ''-12.5%''"
    by (simp add: get_compression_def fmt calculate_jpeg_compression_ratio_def jpeg_ratio_body_def
        rgb bmp py_truediv_def percent_502_565 del: One_nat_def)
  have opened: "image_open sample_world ''pics/tiny.jpg'' = Inr ?tiny"
    and size: "os_stat sample_world ''pics/tiny.jpg'' = Inr 631"
    by (simp_all add: sample_world_def sample_files_def)
  obtain t where "file_size_mb_str 631 = Inr t"
    using file_size_mb_str_Inr by blast
  from get_image_info_succeeds [OF opened size this] tiny
  have "get_image_info sample_world ''pics/tiny.jpg'' ''compression'' = Some (PyStr ''-987.9%'')"
    by (simp del: One_nat_def)
  with bmp fmt size tiny strip show ?thesis
    by (simp del: One_nat_def)
qed

section \<open>The rounding is correct\<close>

lemma rne_nearest:
  assumes "0 < q"
  shows "\<bar>2 * (rne p q * q - p)\<bar> \<le> q"
proof -
  define f where "f = p div q"
  define r where "r = p mod q"
  have p: "p = f * q + r"
    by (simp add: f_def r_def)
  from assms have r: "0 \<le> r" "r < q"
    by (simp_all add: r_def)
  have "rne p q = (if 2 * r < q then f else if q < 2 * r then f + 1 else if even f then f else f + 1)"
    by (simp add: rne_def f_def r_def Let_def)
  then consider "rne p q = f" "2 * r \<le> q" | "rne p q = f + 1" "q \<le> 2 * r"
    by (auto split: if_splits)
  then show ?thesis
  proof cases
    case 1
    with r show ?thesis
      by (simp add: p)
  next
    case 2
    have "(f + 1) * q - (f * q + r) = q - r"
      by (simp add: algebra_simps)
    with 2 r show ?thesis
      by (simp add: p)
  qed
qed

lemma bitlen_nonneg: "0 \<le> bitlen n"
proof (induction n rule: bitlen.induct)
  case (1 n)
  then show ?case
    by (cases "n \<le> 0") (simp_all add: bitlen.simps [of n])
qed

lemma bitlen_pos: "0 < n \<Longrightarrow> 0 < bitlen n"
  using bitlen_nonneg [of "n div 2"] by (simp add: bitlen.simps [of n])

lemma bitlen_bounds:
  "0 < n \<Longrightarrow> 2 ^ nat (bitlen n - 1) \<le> n \<and> n < 2 ^ nat (bitlen n)"
proof (induction n rule: bitlen.induct)
  case (1 n)
  show ?case
  proof (cases "n = 1")
    case True
    then show ?thesis
      by (simp add: bitlen.simps [of 1] bitlen.simps [of 0])
  next
    case False
    with "1.prems" have half: "0 < n div 2"
      by simp
    with "1.prems" "1.IH" have ih: "2 ^ nat (bitlen (n div 2) - 1) \<le> n div 2"
        "n div 2 < 2 ^ nat (bitlen (n div 2))"
      by simp_all
    from half have b: "0 < bitlen (n div 2)"
      by (rule bitlen_pos)
    from "1.prems" have bn: "bitlen n = 1 + bitlen (n div 2)"
      by (simp add: bitlen.simps [of n])
    from b have step: "(2::int) ^ nat (bitlen (n div 2)) = 2 * 2 ^ nat (bitlen (n div 2) - 1)"
      by (metis Suc_nat_eq_nat_zadd1 add.commute diff_add_cancel diff_ge_0_iff_ge 
          int_one_le_iff_zero_less power_Suc)
    from b have step2: "(2::int) ^ nat (1 + bitlen (n div 2)) = 2 * 2 ^ nat (bitlen (n div 2))"
      by (simp add: nat_add_distrib)
    have "2 * (n div 2) \<le> n" "n \<le> 2 * (n div 2) + 1"
      by presburger+
    with ih step step2 show ?thesis
      by (simp add: bn)
  qed
qed


lemma rne_lower:
  assumes q: "0 < q" and lo: "l * q \<le> p"
  shows "l \<le> rne p q"
proof (rule ccontr)
  assume "\<not> l \<le> rne p q"
  then have "rne p q \<le> l - 1"
    by simp
  with q have "rne p q * q \<le> (l - 1) * q"
    by (simp add: mult_right_mono)
  also have "(l - 1) * q = l * q - q"
    by (simp add: algebra_simps)
  finally have "rne p q * q \<le> l * q - q" .
  with rne_nearest [OF q, of p] lo q show False
    by simp
qed

lemma rne_upper:
  assumes q: "0 < q" and hi: "p \<le> h * q"
  shows "rne p q \<le> h"
proof (rule ccontr)
  assume "\<not> rne p q \<le> h"
  then have "h + 1 \<le> rne p q"
    by simp
  with q have "(h + 1) * q \<le> rne p q * q"
    by (simp add: mult_right_mono)
  moreover have "(h + 1) * q = h * q + q"
    by (simp add: algebra_simps)
  ultimately have "h * q + q \<le> rne p q * q"
    by simp
  with rne_nearest [OF q, of p] hi q show False
    by simp
qed

lemma pow2_nat_add:
  "0 \<le> x \<Longrightarrow> 0 \<le> y \<Longrightarrow> (2::int) ^ nat x * 2 ^ nat y = 2 ^ nat (x + y)"
  by (simp add: nat_add_distrib power_add)

text \<open>After scaling by the first exponent the quotient lies between \<open>2 ^ 52\<close> and \<open>2 ^ 54\<close>.\<close>

lemma scaled_quotient_range:
  assumes p: "0 < p" and q: "0 < q"
  defines "e0 \<equiv> bitlen p - bitlen q - 53"
  shows "2 ^ 52 * (q * 2 ^ nat e0) < p * 2 ^ nat (- e0)"
    and "p * 2 ^ nat (- e0) < 2 ^ 54 * (q * 2 ^ nat e0)"
proof -
  define a where "a = bitlen p"
  define b where "b = bitlen q"
  from p q have a: "1 \<le> a" and b: "1 \<le> b"
    using bitlen_pos [of p] bitlen_pos [of q] by (simp_all add: a_def b_def)
  from bitlen_bounds [OF p] have pa: "2 ^ nat (a - 1) \<le> p" "p < 2 ^ nat a"
    by (simp_all add: a_def)
  from bitlen_bounds [OF q] have qb: "2 ^ nat (b - 1) \<le> q" "q < 2 ^ nat b"
    by (simp_all add: b_def)
  have e0: "e0 = a - b - 53"
    by (simp add: e0_def a_def b_def)
  show "2 ^ 52 * (q * 2 ^ nat e0) < p * 2 ^ nat (- e0)"
  proof (cases "0 \<le> e0")
    case True
    have "2 ^ 52 * (q * 2 ^ nat e0) < 2 ^ 52 * (2 ^ nat b * 2 ^ nat e0)"
      using qb(2) by simp
    also have "\<dots> = 2 ^ nat 52 * 2 ^ nat (b + e0)"
      using b True by (simp add: pow2_nat_add)
    also have "\<dots> = 2 ^ nat (52 + (b + e0))"
      using b True by (intro pow2_nat_add) simp_all
    also have "52 + (b + e0) = a - 1"
      by (simp add: e0)
    finally have "2 ^ 52 * (q * 2 ^ nat e0) < p"
      using pa(1) by simp
    with True show ?thesis
      by simp
  next
    case False
    have "2 ^ 52 * q < 2 ^ nat 52 * 2 ^ nat b"
      using qb(2) by simp
    also have "\<dots> = 2 ^ nat (52 + b)"
      using b by (intro pow2_nat_add) simp_all
    also have "52 + b = (a - 1) + (- e0)"
      by (simp add: e0)
    also have "2 ^ nat ((a - 1) + (- e0)) = (2::int) ^ nat (a - 1) * 2 ^ nat (- e0)"
      using a False by (intro pow2_nat_add [symmetric]) simp_all
    also have "\<dots> \<le> p * 2 ^ nat (- e0)"
      using pa(1) by simp
    finally show ?thesis
      using False by simp
  qed
  show "p * 2 ^ nat (- e0) < 2 ^ 54 * (q * 2 ^ nat e0)"
  proof (cases "0 \<le> e0")
    case True
    have "p < 2 ^ nat a"
      by (rule pa(2))
    also have "a = 54 + ((b - 1) + e0)"
      by (simp add: e0)
    also have "2 ^ nat (54 + ((b - 1) + e0)) = (2::int) ^ nat 54 * 2 ^ nat ((b - 1) + e0)"
      using b True by (intro pow2_nat_add [symmetric]) simp_all
    also have "\<dots> = 2 ^ nat 54 * (2 ^ nat (b - 1) * 2 ^ nat e0)"
      using b True by (simp add: pow2_nat_add)
    also have "\<dots> \<le> 2 ^ 54 * (q * 2 ^ nat e0)"
      using qb(1) by simp
    finally show ?thesis
      using True by simp
  next
    case False
    have "p * 2 ^ nat (- e0) < 2 ^ nat a * 2 ^ nat (- e0)"
      using pa(2) by simp
    also have "\<dots> = 2 ^ nat (a + (- e0))"
      using a False by (intro pow2_nat_add) simp_all
    also have "a + (- e0) = 54 + (b - 1)"
      by (simp add: e0)
    also have "2 ^ nat (54 + (b - 1)) = (2::int) ^ nat 54 * 2 ^ nat (b - 1)"
      using b by (intro pow2_nat_add [symmetric]) simp_all
    also have "\<dots> \<le> 2 ^ 54 * q"
      using qb(1) by simp
    finally show ?thesis
      using False by simp
  qed
qed


text \<open>
  \<open>round_to_double\<close> rounds correctly: the result \<open>m * 2 ^ e\<close> has a mantissa of 53 bits
  and differs from \<open>p / q\<close> by at most half a unit of its last place.
\<close>

lemma round_to_double_correct:
  assumes q: "0 < q" and p: "p \<noteq> 0" and r: "round_to_double p q = F64 m e"
  shows "2 ^ 52 \<le> \<bar>m\<bar>" and "\<bar>m\<bar> \<le> 2 ^ 53"
    and "\<bar>2 * (m * (q * 2 ^ nat e) - p * 2 ^ nat (- e))\<bar> \<le> q * 2 ^ nat e"
proof -
  define e0 where "e0 = bitlen \<bar>p\<bar> - bitlen q - 53"
  define P0 where "P0 = \<bar>p\<bar> * 2 ^ nat (- e0)"
  define Q0 where "Q0 = q * 2 ^ nat e0"
  define P where "P = \<bar>p\<bar> * 2 ^ nat (- e)"
  define Q where "Q = q * 2 ^ nat e"
  from p have abs_p: "0 < \<bar>p\<bar>"
    by simp
  from scaled_quotient_range [OF abs_p q]
  have range0: "2 ^ 52 * Q0 < P0" "P0 < 2 ^ 54 * Q0"
    by (simp_all add: P0_def Q0_def e0_def)
  from q have Q: "0 < Q"
    by (simp add: Q_def)
  define e' where "e' = (if 2 ^ 53 * Q0 \<le> P0 then e0 + 1 else e0)"
  have "round_to_double p q = F64 (rne (p * 2 ^ nat (- e')) (q * 2 ^ nat e')) e'"
    unfolding round_to_double_def Let_def e'_def P0_def Q0_def e0_def
    by (simp only: p if_False)
  with r have "F64 m e = F64 (rne (p * 2 ^ nat (- e')) (q * 2 ^ nat e')) e'"
    by (simp only:)
  then have m': "m = rne (p * 2 ^ nat (- e')) (q * 2 ^ nat e')" and ee: "e = e'"
    by (simp_all only: float64.inject)
  from m' ee have m: "m = rne (p * 2 ^ nat (- e)) Q"
    by (simp add: Q_def)
  from ee have e: "e = (if 2 ^ 53 * Q0 \<le> P0 then e0 + 1 else e0)"
    by (simp add: e'_def)
  have range: "2 ^ 52 * Q \<le> P \<and> P < 2 ^ 53 * Q"
  proof (cases "2 ^ 53 * Q0 \<le> P0")
    case False
    with e have "e = e0"
      by simp
    with False range0 show ?thesis
      by (simp add: P_def Q_def P0_def Q0_def)
  next
    case True
    with e have e1: "e = e0 + 1"
      by simp
    show ?thesis
    proof (cases "0 \<le> e0")
      case nonneg: True
      then have "nat (e0 + 1) = Suc (nat e0)" "nat (- (e0 + 1)) = 0" "nat (- e0) = 0"
        by simp_all
      then have "Q = 2 * Q0" "P = P0"
        by (simp_all add: P_def Q_def P0_def Q0_def e1)
      with True range0 show ?thesis
        by simp
    next
      case neg: False
      then have "nat (e0 + 1) = 0" "nat e0 = 0" "nat (- e0) = Suc (nat (- (e0 + 1)))"
        by simp_all
      then have "Q = Q0" "P0 = 2 * P"
        by (simp_all add: P_def Q_def P0_def Q0_def e1)
      with True range0 show ?thesis
        by simp
    qed
  qed
  show "\<bar>2 * (m * (q * 2 ^ nat e) - p * 2 ^ nat (- e))\<bar> \<le> q * 2 ^ nat e"
    using rne_nearest [OF Q, of "p * 2 ^ nat (- e)"] by (simp add: m Q_def)
  have "2 ^ 52 \<le> \<bar>m\<bar> \<and> \<bar>m\<bar> \<le> 2 ^ 53"
  proof (cases "0 < p")
    case True
    then have "p * 2 ^ nat (- e) = P"
      by (simp add: P_def)
    with range rne_lower [OF Q, of "2 ^ 52" P] rne_upper [OF Q, of P "2 ^ 53"]
    have "2 ^ 52 \<le> m" "m \<le> 2 ^ 53"
      by (simp_all add: m)
    then show ?thesis
      by simp
  next
    case False
    with p have "p * 2 ^ nat (- e) = - P"
      by (simp add: P_def)
    with range rne_lower [OF Q, of "- (2 ^ 53)" "- P"] rne_upper [OF Q, of "- P" "- (2 ^ 52)"]
    have "- (2 ^ 53) \<le> m" "m \<le> - (2 ^ 52)"
      by (simp_all add: m)
    then show ?thesis
      by simp
  qed
  then show "2 ^ 52 \<le> \<bar>m\<bar>" and "\<bar>m\<bar> \<le> 2 ^ 53"
    by simp_all
qed

end
